theory Spec2Isabelle
  imports Complex_Main "HOL-Library.Multiset"
begin

section \<open>Numeric model\<close>

text \<open>
  The arrays of \<^verbatim>\<open>detect.py\<close> hold IEEE floating-point numbers. Finite values are
  modelled as exact reals (rounding is not modelled); the special values a NumPy
  division can produce are kept apart in \<open>fval\<close>, because \<open>x / 0\<close> is \<open>0\<close> in HOL
  while NumPy yields \<open>nan\<close> or \<open>inf\<close> (with a warning, not an exception).
\<close>

datatype fval = Num real | PosInf | NegInf | NaN

text \<open>\<^verbatim>\<open>a / b\<close> on NumPy floats (the sign of a zero divisor is not tracked).\<close>

definition np_divide :: "real \<Rightarrow> real \<Rightarrow> fval" where
  "np_divide a b =
     (if b \<noteq> 0 then Num (a / b)
      else if 0 < a then PosInf
      else if a < 0 then NegInf
      else NaN)"

text \<open>\<^verbatim>\<open>np.maximum(v, e)\<close> for a finite \<open>e\<close>: a \<open>nan\<close> operand propagates.\<close>

fun np_maximum :: "fval \<Rightarrow> real \<Rightarrow> fval" where
  "np_maximum (Num r) e = Num (max r e)"
| "np_maximum PosInf e = PosInf"
| "np_maximum NegInf e = Num e"
| "np_maximum NaN e = NaN"

text \<open>\<^verbatim>\<open>v > t\<close> for a finite \<open>t\<close>: every comparison with \<open>nan\<close> is false.\<close>

fun np_greater :: "fval \<Rightarrow> real \<Rightarrow> bool" where
  "np_greater (Num r) t = (t < r)"
| "np_greater PosInf t = True"
| "np_greater NegInf t = False"
| "np_greater NaN t = False"

text \<open>\<^verbatim>\<open>np.finfo(np.float32).eps\<close>\<close>

definition eps32 :: real where
  "eps32 = 1 / 2 ^ 23"

section \<open>Intersection over union: \<^verbatim>\<open>Detector.bboxes_iou\<close>\<close>

text \<open>A box is a row \<open>(b[0], b[1], b[2], b[3])\<close>, in the NMS \<open>(xmin, ymin, xmax, ymax)\<close>.\<close>

type_synonym box = "real \<times> real \<times> real \<times> real"

fun box_area :: "box \<Rightarrow> real" where
  "box_area (a0, a1, a2, a3) = (a2 - a0) * (a3 - a1)"

fun inter_area :: "box \<Rightarrow> box \<Rightarrow> real" where
  "inter_area (a0, a1, a2, a3) (b0, b1, b2, b3) =
     (let left_up = (max a0 b0, max a1 b1);
          right_down = (min a2 b2, min a3 b3);
          intersection = (max (fst right_down - fst left_up) 0,
                          max (snd right_down - snd left_up) 0)
      in fst intersection * snd intersection)"

definition union_area :: "box \<Rightarrow> box \<Rightarrow> real" where
  "union_area boxes1 boxes2 = box_area boxes1 + box_area boxes2 - inter_area boxes1 boxes2"

definition bboxes_iou :: "box \<Rightarrow> box \<Rightarrow> fval" where
  "bboxes_iou boxes1 boxes2 =
     np_maximum (np_divide (1 * inter_area boxes1 boxes2) (union_area boxes1 boxes2)) eps32"

text \<open>A box with positive width and height, and two such boxes that do not overlap.\<close>

fun proper_box :: "box \<Rightarrow> bool" where
  "proper_box (a0, a1, a2, a3) = (a0 < a2 \<and> a1 < a3)"

fun disjoint_boxes :: "box \<Rightarrow> box \<Rightarrow> bool" where
  "disjoint_boxes (a0, a1, a2, a3) (b0, b1, b2, b3) =
     (a2 \<le> b0 \<or> b2 \<le> a0 \<or> a3 \<le> b1 \<or> b3 \<le> a1)"

section \<open>The detector and its label table: \<^verbatim>\<open>Detector.__init__\<close>\<close>

text \<open>The exceptions that the modelled code can raise.\<close>

datatype py_error = IndexError | ValueError | ZeroDivisionError | NotImplementedError

text \<open>
  The fields of \<^verbatim>\<open>Detector\<close> that the decoders read. \<^verbatim>\<open>scale_width\<close> and
  \<^verbatim>\<open>scale_height\<close> are computed by the constructor as
  \<^verbatim>\<open>float(camera_width) / image_width\<close>, which raises for a model of input width 0.
\<close>

record detector =
  yolo_version :: string
  id2label :: "int \<rightharpoonup> string"
  label2id :: "string \<rightharpoonup> int"
  target_id :: int
  image_width :: int
  image_height :: int
  camera_width :: int
  camera_height :: int
  threshold :: real

definition scale_width :: "detector \<Rightarrow> real" where
  "scale_width d = real_of_int (camera_width d) / real_of_int (image_width d)"

definition scale_height :: "detector \<Rightarrow> real" where
  "scale_height d = real_of_int (camera_height d) / real_of_int (image_height d)"

text \<open>
  Lines 329 to 345. The label file is the list of its lines as \<^verbatim>\<open>readline\<close> returns
  them; the empty string is the end of the file. Characters are ASCII.
  \<^verbatim>\<open>str.strip\<close>, \<^verbatim>\<open>str.split(' ', 1)\<close>, \<^verbatim>\<open>str.replace(' ', '_')\<close> and \<^verbatim>\<open>int\<close> on a
  string (an optional sign, then decimal digits that single underscores may separate):
\<close>

definition is_space :: "char \<Rightarrow> bool" where
  "is_space c = (c \<in> set [CHR '' '', CHR 0x09, CHR 0x0A, CHR 0x0B, CHR 0x0C, CHR 0x0D,
                            CHR 0x1C, CHR 0x1D, CHR 0x1E, CHR 0x1F])"

definition strip :: "string \<Rightarrow> string" where
  "strip s = rev (dropWhile is_space (rev (dropWhile is_space s)))"

definition split_space_once :: "string \<Rightarrow> string list" where
  "split_space_once s =
     (case dropWhile (\<lambda>c. c \<noteq> CHR '' '') s of
        [] \<Rightarrow> [s]
      | _ # after \<Rightarrow> [takeWhile (\<lambda>c. c \<noteq> CHR '' '') s, after])"

definition replace_space :: "string \<Rightarrow> string" where
  "replace_space s = map (\<lambda>c. if c = CHR '' '' then CHR ''_'' else c) s"

definition is_digit :: "char \<Rightarrow> bool" where
  "is_digit c = (48 \<le> (of_char c :: nat) \<and> (of_char c :: nat) \<le> 57)"

fun underscores_ok :: "string \<Rightarrow> bool" where
  "underscores_ok [] = False"
| "underscores_ok [c] = is_digit c"
| "underscores_ok (c # c' # cs) =
     (if c = CHR ''_'' then False
      else if c' = CHR ''_'' then is_digit c \<and> underscores_ok cs
      else is_digit c \<and> underscores_ok (c' # cs))"

definition digits_value :: "string \<Rightarrow> int" where
  "digits_value s =
     foldl (\<lambda>acc c. 10 * acc + (int (of_char c) - 48)) 0 (filter (\<lambda>c. c \<noteq> CHR ''_'') s)"

definition py_int :: "string \<Rightarrow> py_error + int" where
  "py_int s =
     (case strip s of
        [] \<Rightarrow> Inl ValueError
      | c # cs \<Rightarrow>
          if c = CHR ''-'' then (if underscores_ok cs then Inr (- digits_value cs) else Inl ValueError)
          else if c = CHR ''+'' then (if underscores_ok cs then Inr (digits_value cs) else Inl ValueError)
          else if underscores_ok (c # cs) then Inr (digits_value (c # cs))
          else Inl ValueError)"

text \<open>The body of the loop up to the two table updates: \<open>(idx, label)\<close> of a line.\<close>

definition parse_line :: "string \<Rightarrow> py_error + (int \<times> string)" where
  "parse_line line =
     (let info = map strip (split_space_once (strip line)) in
      case py_int (info ! 0) of
        Inl e \<Rightarrow> Inl e
      | Inr idx \<Rightarrow>
          if length info < 2 then Inl IndexError
          else Inr (idx, replace_space (info ! 1)))"

text \<open>
  The \<^verbatim>\<open>while line\<close> loop: \<open>off\<close> counts the lines read so far, and the pair of
  tables is \<open>(id2label, label2id)\<close>.
\<close>

type_synonym label_tables = "(int \<rightharpoonup> string) \<times> (string \<rightharpoonup> int)"

fun load_labels_from :: "bool \<Rightarrow> string list \<Rightarrow> nat \<Rightarrow> label_tables \<Rightarrow> py_error + label_tables" where
  "load_labels_from is_yolo [] off tabs = Inr tabs"
| "load_labels_from is_yolo (line # rest) off (i2l, l2i) =
     (if line = [] then Inr (i2l, l2i)
      else case parse_line line of
        Inl e \<Rightarrow> Inl e
      | Inr (idx, label) \<Rightarrow>
          if is_yolo
          then load_labels_from is_yolo rest (off + 1)
                 (i2l(int off \<mapsto> label), l2i(label \<mapsto> int off))
          else load_labels_from is_yolo rest (off + 1)
                 (i2l(idx \<mapsto> label), l2i(label \<mapsto> idx)))"

definition load_labels :: "bool \<Rightarrow> string list \<Rightarrow> py_error + label_tables" where
  "load_labels is_yolo lines = load_labels_from is_yolo lines 0 (Map.empty, Map.empty)"

section \<open>The direct decoder: \<^verbatim>\<open>Detector.get_frames_ssd\<close>\<close>

text \<open>\<^verbatim>\<open>int(x)\<close> on a float truncates towards zero.\<close>

definition py_trunc :: "real \<Rightarrow> int" where
  "py_trunc x = (if 0 \<le> x then \<lfloor>x\<rfloor> else \<lceil>x\<rceil>)"

text \<open>An element of the list \<^verbatim>\<open>frames\<close>.\<close>

record frame =
  name :: string
  prob :: real
  bbox :: "int \<times> int \<times> int \<times> int"

text \<open>
  The four output tensors. \<open>detections\<close> holds, for each of the \<open>N\<close> slots of the model,
  the row of \<^verbatim>\<open>outputs[0]\<close> (in the order ymin, xmin, ymax, xmax) and the entries of
  \<^verbatim>\<open>outputs[1]\<close> and \<^verbatim>\<open>outputs[2]\<close>; \<open>valid_count\<close> is the scalar \<^verbatim>\<open>outputs[3]\<close>.
\<close>

record ssd_outputs =
  detections :: "(box \<times> real \<times> real) list"
  valid_count :: real

text \<open>
  \<^verbatim>\<open>class_ids[i]\<close> after \<^verbatim>\<open>squeeze()\<close>: with a single slot the squeezed array has no
  axis left and indexing it raises, as an index beyond the last slot does.
\<close>

definition squeezed_index :: "'a list \<Rightarrow> nat \<Rightarrow> py_error + 'a" where
  "squeezed_index xs i =
     (if length xs = 1 then Inl IndexError
      else if i < length xs then Inr (xs ! i)
      else Inl IndexError)"

text \<open>Lines 407 to 411: the pixel box of a normalized box.\<close>

fun ssd_bbox :: "detector \<Rightarrow> box \<Rightarrow> int \<times> int \<times> int \<times> int" where
  "ssd_bbox d (ymin, xmin, ymax, xmax) =
     (let ymin' = max 0 (py_trunc (ymin * real_of_int (camera_height d)));
          xmin' = max 0 (py_trunc (xmin * real_of_int (camera_width d)));
          ymax' = min (camera_height d) (py_trunc (ymax * real_of_int (camera_height d)));
          xmax' = min (camera_width d) (py_trunc (xmax * real_of_int (camera_width d)))
      in (xmin', ymin', xmax', ymax'))"

text \<open>
  One iteration of the \<^verbatim>\<open>for\<close> loop: \<open>None\<close> is a \<^verbatim>\<open>continue\<close>, \<open>Some\<close> the frame
  appended.
\<close>

definition ssd_entry :: "detector \<Rightarrow> ssd_outputs \<Rightarrow> nat \<Rightarrow> py_error + frame option" where
  "ssd_entry d outputs i =
     (case squeezed_index (detections outputs) i of
        Inl e \<Rightarrow> Inl e
      | Inr (b, c, s) \<Rightarrow>
          (let cid = py_trunc c; p = s in
           case id2label d cid of
             None \<Rightarrow> Inr None
           | Some nm \<Rightarrow>
               if target_id d \<noteq> - 1 \<and> target_id d \<noteq> cid then Inr None
               else if p < threshold d then Inr None
               else Inr (Some \<lparr>name = nm, prob = p, bbox = ssd_bbox d b\<rparr>)))"

fun ssd_loop :: "detector \<Rightarrow> ssd_outputs \<Rightarrow> nat list \<Rightarrow> frame list \<Rightarrow> py_error + frame list" where
  "ssd_loop d outputs [] frames = Inr frames"
| "ssd_loop d outputs (i # rest) frames =
     (case ssd_entry d outputs i of
        Inl e \<Rightarrow> Inl e
      | Inr None \<Rightarrow> ssd_loop d outputs rest frames
      | Inr (Some f) \<Rightarrow> ssd_loop d outputs rest (frames @ [f]))"

definition get_frames_ssd :: "detector \<Rightarrow> ssd_outputs \<Rightarrow> py_error + frame list" where
  "get_frames_ssd d outputs =
     (let count = py_trunc (valid_count outputs) in ssd_loop d outputs [0..<nat count] [])"

section \<open>Greedy per-class suppression: the NMS loops of \<^verbatim>\<open>Detector.get_frames_yolo\<close>\<close>

text \<open>
  A row of the array \<^verbatim>\<open>bboxes\<close>: columns 0 to 3 are the box, column 4 the class id,
  column 5 the score.
\<close>

record bbox =
  coords :: box
  class_id :: int
  score :: real

text \<open>
  \<^verbatim>\<open>np.argmax\<close> on a one-dimensional array: the first index of the maximum. NumPy
  raises on an empty array; every call below is on a non-empty one or guarded.
\<close>

fun argmax :: "real list \<Rightarrow> nat" where
  "argmax [] = 0"
| "argmax [x] = 0"
| "argmax (x # y # ys) = (let j = argmax (y # ys) in if (y # ys) ! j \<le> x then 0 else Suc j)"

text \<open>The fixed overlap threshold of the source.\<close>

definition iou_threshold :: real where
  "iou_threshold = 213 / 1000"

text \<open>
  Lines 541 to 550: the overlap of the emitted box with every remaining row, the 0/1
  weight, the weighted scores and the mask of the rows whose score is still positive.
\<close>

definition suppress :: "bbox \<Rightarrow> bbox list \<Rightarrow> bbox list" where
  "suppress best_bbox cls_bboxes =
     (let iou = map (\<lambda>b. bboxes_iou (coords best_bbox) (coords b)) cls_bboxes;
          weight = map (\<lambda>v. if np_greater v iou_threshold then 0 else (1::real)) iou;
          weighted = map (\<lambda>(b, w). b\<lparr>score := score b * w\<rparr>) (zip cls_bboxes weight)
      in filter (\<lambda>b. 0 < score b) weighted)"

text \<open>One iteration of the \<^verbatim>\<open>while\<close> loop, on the pair (remaining rows, emitted rows).\<close>

definition nms_body :: "bbox list \<Rightarrow> bbox list \<Rightarrow> bbox list \<times> bbox list" where
  "nms_body cls_bboxes best_bboxes =
     (let max_ind = argmax (map score cls_bboxes);
          best_bbox = cls_bboxes ! max_ind;
          best_bboxes' = best_bboxes @ [best_bbox];
          cls_bboxes' = take max_ind cls_bboxes @ drop (max_ind + 1) cls_bboxes
      in (suppress best_bbox cls_bboxes', best_bboxes'))"

text \<open>
  The \<^verbatim>\<open>while len(cls_bboxes) > 0\<close> loop with no assumption that it ends: \<open>None\<close>
  stands for a run that never leaves the loop.
\<close>

partial_function (option) nms_while :: "bbox list \<Rightarrow> bbox list \<Rightarrow> bbox list option" where
  "nms_while cls_bboxes best_bboxes =
     (if 0 < length cls_bboxes
      then (case nms_body cls_bboxes best_bboxes of (c, b) \<Rightarrow> nms_while c b)
      else Some best_bboxes)"

text \<open>The same loop as a total function; its measure is the number of remaining rows.\<close>

function nms_loop :: "bbox list \<Rightarrow> bbox list \<Rightarrow> bbox list" where
  "nms_loop cls_bboxes best_bboxes =
     (if 0 < length cls_bboxes
      then (case nms_body cls_bboxes best_bboxes of (c, b) \<Rightarrow> nms_loop c b)
      else best_bboxes)"
  by pat_completeness auto
termination
proof (relation "measure (\<lambda>(c, b). length c)")
  show "wf (measure (\<lambda>(c, b). length c))" by simp
next
  fix cls_bboxes best_bboxes c b :: "bbox list"
  assume ne: "0 < length cls_bboxes"
    and cb: "(c, b) = nms_body cls_bboxes best_bboxes"
  have bound: "argmax zs < length zs" if "zs \<noteq> []" for zs :: "real list"
    using that by (induction zs rule: argmax.induct) (simp_all add: Let_def)
  have "argmax (map score cls_bboxes) < length cls_bboxes"
    using bound [of "map score cls_bboxes"] ne by simp
  moreover have "length (suppress z zs) \<le> length zs" for z zs
    unfolding suppress_def Let_def
    by (rule order_trans [OF length_filter_le]) simp
  ultimately have "length c < length cls_bboxes"
    using cb
    by (auto simp: nms_body_def Let_def intro!: le_less_trans [OF \<open>\<And>z zs. length (suppress z zs) \<le> length zs\<close>])
  then show "((c, b), (cls_bboxes, best_bboxes)) \<in> measure (\<lambda>(c, b). length c)"
    by simp
qed

declare nms_loop.simps [simp del]

text \<open>
  Lines 531 to 550: the \<^verbatim>\<open>for cls in unique_class_ids\<close> loop. The list
  \<^verbatim>\<open>unique_class_ids = list(set(class_ids))\<close> enumerates the class ids of the pool
  once each, in an order Python does not fix; it is an argument here, and
  \<open>is_unique_class_ids\<close> says what the source guarantees of it.
\<close>

fun nms_for :: "int list \<Rightarrow> bbox list \<Rightarrow> bbox list \<Rightarrow> bbox list" where
  "nms_for [] bboxes best_bboxes = best_bboxes"
| "nms_for (cls # rest) bboxes best_bboxes =
     nms_for rest bboxes (nms_loop (filter (\<lambda>b. class_id b = cls) bboxes) best_bboxes)"

definition nms :: "int list \<Rightarrow> bbox list \<Rightarrow> bbox list" where
  "nms unique_class_ids bboxes = nms_for unique_class_ids bboxes []"



section \<open>The anchor decoder: \<^verbatim>\<open>Detector.get_frames_yolo\<close>\<close>


text \<open>
  An output tensor \<^verbatim>\<open>pred\<close> of shape \<open>(1, shape1, shape2, 3, 5 + num_classes)\<close>:
  \<open>entry pred j k a c\<close> is \<^verbatim>\<open>pred[0, j, k, a, c]\<close>.
\<close>

record pred_tensor =
  shape1 :: nat
  shape2 :: nat
  num_classes :: nat
  entry :: "nat \<Rightarrow> nat \<Rightarrow> nat \<Rightarrow> nat \<Rightarrow> real"

text \<open>A row of \<^verbatim>\<open>pred_bbox\<close> after the reshape: x, y, w, h, objectness, class probabilities.\<close>

record pred_row =
  row_x :: real
  row_y :: real
  row_w :: real
  row_h :: real
  row_conf :: real
  row_prob :: "real list"

text \<open>Line 471.\<close>

definition strides :: "detector \<Rightarrow> pred_tensor \<Rightarrow> int \<times> int" where
  "strides d pred =
     (let pred_x = shape1 pred; pred_y = shape2 pred
      in (image_width d div int pred_x, image_height d div int pred_y))"

text \<open>
  \<^verbatim>\<open>np.meshgrid(xs, ys)\<close> with the default indexing: two arrays of \<open>length ys\<close> rows
  and \<open>length xs\<close> columns, the first repeating \<open>xs\<close> in every row, the second holding
  the entry of \<open>ys\<close> of its row.
\<close>

definition meshgrid :: "nat list \<Rightarrow> nat list \<Rightarrow> nat list list \<times> nat list list" where
  "meshgrid xs ys = (map (\<lambda>y. xs) ys, map (\<lambda>y. map (\<lambda>x. y) xs) ys)"

text \<open>
  Lines 477 to 481: the entry \<open>[0, j, k, a, :]\<close> of \<^verbatim>\<open>xy_offset\<close> after the stack and
  the tile, an array of shape \<open>(1, pred_y, pred_x, 3, 2)\<close>.
\<close>

definition xy_offset :: "nat \<Rightarrow> nat \<Rightarrow> nat \<Rightarrow> nat \<Rightarrow> real \<times> real" where
  "xy_offset pred_x pred_y j k =
     (case meshgrid [0..<pred_x] [0..<pred_y] of
        (gx, gy) \<Rightarrow> (real (gx ! j ! k), real (gy ! j ! k)))"

text \<open>Lines 482 to 488 at the position \<open>[0, j, k, a]\<close>.\<close>

definition decode_cell ::
  "int \<times> int \<Rightarrow> (real \<times> real) list \<Rightarrow> real \<Rightarrow> pred_tensor \<Rightarrow> nat \<Rightarrow> nat \<Rightarrow> nat \<Rightarrow> pred_row" where
  "decode_cell strd anchor xyscale pred j k a =
     (let off = xy_offset (shape1 pred) (shape2 pred) j k;
          x = ((entry pred j k a 0 * xyscale) - (0.5 * (xyscale - 1)) + fst off)
                * real_of_int (fst strd);
          y = ((entry pred j k a 1 * xyscale) - (0.5 * (xyscale - 1)) + snd off)
                * real_of_int (snd strd);
          w = entry pred j k a 2 * fst (anchor ! a);
          h = entry pred j k a 3 * snd (anchor ! a)
      in \<lparr>row_x = x, row_y = y, row_w = w, row_h = h,
          row_conf = entry pred j k a 4,
          row_prob = map (\<lambda>c. entry pred j k a (5 + c)) [0..<num_classes pred]\<rparr>)"

text \<open>
  The body of the loop over \<^verbatim>\<open>enumerate(outputs)\<close> and the reshape of line 489. The
  integer division raises for an empty grid axis, \<^verbatim>\<open>anchors[i]\<close> for a scale without
  anchors, and the sum of \<^verbatim>\<open>xy\<close> (shape \<open>(1, pred_x, pred_y, 3, 2)\<close>) and
  \<^verbatim>\<open>xy_offset\<close> (shape \<open>(1, pred_y, pred_x, 3, 2)\<close>), or the concatenation after it,
  for a grid that is not square.
\<close>

definition decode_scale ::
  "detector \<Rightarrow> (real \<times> real) list list \<Rightarrow> real list \<Rightarrow> nat \<Rightarrow> pred_tensor \<Rightarrow> py_error + pred_row list" where
  "decode_scale d anchors xyscales i pred =
     (let pred_x = shape1 pred; pred_y = shape2 pred in
      if pred_x = 0 \<or> pred_y = 0 then Inl ZeroDivisionError
      else if length anchors \<le> i \<or> length xyscales \<le> i then Inl IndexError
      else if pred_x \<noteq> pred_y then Inl ValueError
      else Inr (concat (map (\<lambda>j. concat (map (\<lambda>k.
                  map (decode_cell (strides d pred) (anchors ! i) (xyscales ! i) pred j k) [0..<3])
                [0..<pred_y])) [0..<pred_x])))"



text \<open>Lines 497 to 512: corners, clipping to the model input, zeroing of inverted boxes.\<close>

definition yolo_box :: "detector \<Rightarrow> pred_row \<Rightarrow> box" where
  "yolo_box d r =
     (let x0 = row_x r - row_w r * 0.5; y0 = row_y r - row_h r * 0.5;
          x1 = row_x r + row_w r * 0.5; y1 = row_y r + row_h r * 0.5;
          c0 = max x0 0; c1 = max y0 0;
          c2 = min x1 (real_of_int (image_width d)); c3 = min y1 (real_of_int (image_height d));
          invalid_mask = (c0 > c2 \<or> c1 > c3)
      in if invalid_mask then (0, 0, 0, 0) else (c0, c1, c2, c3))"

text \<open>Lines 492 to 496 and 527 to 529: the row of \<^verbatim>\<open>bboxes\<close> of a decoded row.\<close>

definition candidate :: "detector \<Rightarrow> pred_row \<Rightarrow> bbox" where
  "candidate d r =
     (let p = map (\<lambda>q. row_conf r * q) (row_prob r)
      in \<lparr>coords = yolo_box d r, class_id = int (argmax p), score = Max (set p)\<rparr>)"

text \<open>
  Lines 514 to 522: the mask of the rows kept for the suppression. The upper bound
  \<^verbatim>\<open>box_scales < np.inf\<close> holds for every real.
\<close>

definition mask :: "detector \<Rightarrow> bbox \<Rightarrow> bool" where
  "mask d b =
     (case coords b of (b0, b1, b2, b3) \<Rightarrow>
        (let box_scales = sqrt ((b2 - b0) * (b3 - b1));
             scale_mask = (0 < box_scales);
             score_mask = (score b > threshold d)
         in scale_mask \<and> score_mask))"

text \<open>\<^verbatim>\<open>np.argmax\<close> along the last axis raises when there is no class column.\<close>

definition pre_nms :: "detector \<Rightarrow> pred_row list \<Rightarrow> py_error + bbox list" where
  "pre_nms d pred_bbox =
     (if list_ex (\<lambda>r. row_prob r = []) pred_bbox then Inl ValueError
      else Inr (filter (mask d) (map (candidate d) pred_bbox)))"

text \<open>Lines 552 to 571: the body of the loop over \<^verbatim>\<open>best_bboxes\<close>.\<close>

definition yolo_frame :: "detector \<Rightarrow> bbox \<Rightarrow> frame option" where
  "yolo_frame d b =
     (let cid = class_id b; p = score b in
      case id2label d cid of
        None \<Rightarrow> None
      | Some nm \<Rightarrow>
          if target_id d \<noteq> - 1 \<and> target_id d \<noteq> cid then None
          else if p < threshold d then None
          else (case coords b of (xmin, ymin, xmax, ymax) \<Rightarrow>
            (let xmin' = max 0 (py_trunc (xmin * scale_width d));
                 xmax' = min (camera_width d) (py_trunc (xmax * scale_width d));
                 ymin' = max 0 (py_trunc (ymin * scale_height d));
                 ymax' = min (camera_height d) (py_trunc (ymax * scale_height d))
             in Some \<lparr>name = nm, prob = p, bbox = (xmin', ymin', xmax', ymax')\<rparr>)))"

definition yolo_frames :: "detector \<Rightarrow> bbox list \<Rightarrow> frame list" where
  "yolo_frames d best_bboxes = List.map_filter (yolo_frame d) best_bboxes"


section \<open>Auxiliary predicates and example inputs\<close>

text \<open>Slot \<open>i\<close> of the direct decoder's outputs exists and its class id has a label.\<close>

definition ssd_known :: "detector \<Rightarrow> ssd_outputs \<Rightarrow> nat \<Rightarrow> bool" where
  "ssd_known d outputs i =
     (case squeezed_index (detections outputs) i of
        Inl e \<Rightarrow> False
      | Inr (b, c, s) \<Rightarrow> id2label d (py_trunc c) \<noteq> None)"

text \<open>
  A detector for a 416 by 416 model and a 640 by 640 camera, with two labels, no target
  class and the default threshold.
\<close>

definition example_detector :: detector where
  "example_detector =
     \<lparr>yolo_version = ''yolov3-tiny'',
      id2label = [0 \<mapsto> ''person'', 17 \<mapsto> ''cat''],
      label2id = [''person'' \<mapsto> 0, ''cat'' \<mapsto> 17],
      target_id = - 1,
      image_width = 416, image_height = 416,
      camera_width = 640, camera_height = 640,
      threshold = 1 / 2\<rparr>"

text \<open>A decoded row: a 20 by 20 box centred at (50, 50), one class, score 1/2.\<close>

definition example_row :: pred_row where
  "example_row =
     \<lparr>row_x = 50, row_y = 50, row_w = 20, row_h = 20, row_conf = 1, row_prob = [1 / 2]\<rparr>"

text \<open>
  Outputs of a direct model with three slots, all valid: a cat (class 17) with score 0.9,
  a person (class 0) whose score equals the threshold and whose box lies to the right of
  the frame, and a slot of class 5, which has no label.
\<close>

definition example_ssd_outputs :: ssd_outputs where
  "example_ssd_outputs =
     \<lparr>detections =
        [((1 / 10, 1 / 10, 1 / 2, 1 / 2), 17, 9 / 10),
         ((1 / 10, 6 / 5, 1 / 2, 3 / 2), 0, 1 / 2),
         ((0, 0, 1, 1), 5, 19 / 20)],
      valid_count = 3\<rparr>"

text \<open>A second decoded row, with score 0.9, and a 2 by 2 output tensor with one class.\<close>

definition example_row_high :: pred_row where
  "example_row_high =
     \<lparr>row_x = 200, row_y = 100, row_w = 500, row_h = 40, row_conf = 1, row_prob = [9 / 10]\<rparr>"

definition example_pred :: pred_tensor where
  "example_pred =
     \<lparr>shape1 = 2, shape2 = 2, num_classes = 1,
      entry = (\<lambda>j k a c. real (j + 2 * k + a + c) / 10)\<rparr>"


text \<open>A suppressed row of class 5, which has no label, and a label file of three lines.\<close>

definition example_unknown_bbox :: bbox where
  "example_unknown_bbox = \<lparr>coords = (0, 0, 10, 10), class_id = 5, score = 9 / 10\<rparr>"

definition example_label_lines :: "string list" where
  "example_label_lines =
     [''0  person\<newline>'', ''9  traffic light\<newline>'', ''12  stop sign\<newline>'']"


section \<open>Properties of the overlap measure\<close>

lemma inter_area_nonneg: "0 \<le> inter_area a b"
  by (cases a, cases b) (simp add: Let_def)

lemma inter_area_self: "proper_box a \<Longrightarrow> inter_area a a = box_area a"
  by (cases a) (simp add: Let_def max_def)

lemma inter_area_le_left:
  assumes "proper_box a"
  shows "inter_area a b \<le> box_area a"
proof -
  obtain a0 a1 a2 a3 where a: "a = (a0, a1, a2, a3)" by (cases a)
  obtain b0 b1 b2 b3 where b: "b = (b0, b1, b2, b3)" by (cases b)
  let ?w = "max (min a2 b2 - max a0 b0) 0" and ?h = "max (min a3 b3 - max a1 b1) 0"
  from assms a have p: "a0 < a2" "a1 < a3" by simp_all
  have "?w \<le> a2 - a0" "?h \<le> a3 - a1" "0 \<le> ?w" "0 \<le> ?h" using p by auto
  then have "?w * ?h \<le> (a2 - a0) * (a3 - a1)"
    using p by (intro mult_mono) auto
  then show ?thesis by (simp add: a b Let_def)
qed

lemma inter_area_pos_proper:
  assumes "0 < inter_area a b"
  shows "proper_box a \<and> proper_box b"
proof -
  obtain a0 a1 a2 a3 where a: "a = (a0, a1, a2, a3)" by (cases a)
  obtain b0 b1 b2 b3 where b: "b = (b0, b1, b2, b3)" by (cases b)
  let ?w = "max (min a2 b2 - max a0 b0) 0" and ?h = "max (min a3 b3 - max a1 b1) 0"
  from assms have "0 < ?w * ?h" by (simp add: a b Let_def)
  moreover have "0 \<le> ?w" "0 \<le> ?h" by simp_all
  ultimately have "0 < ?w" "0 < ?h"
    by (auto simp: zero_less_mult_iff)
  then show ?thesis by (auto simp: a b)
qed

lemma box_area_pos: "proper_box a \<Longrightarrow> 0 < box_area a"
  by (cases a) simp

lemma union_area_pos:
  assumes "proper_box a" "proper_box b"
  shows "0 < union_area a b"
  using inter_area_le_left [OF assms(1), of b] box_area_pos [OF assms(2)]
  by (simp add: union_area_def)

lemma union_zero_inter_zero:
  assumes "union_area a b = 0"
  shows "inter_area a b = 0"
proof (rule ccontr)
  assume "inter_area a b \<noteq> 0"
  with inter_area_nonneg [of a b] have "0 < inter_area a b" by simp
  then have "proper_box a \<and> proper_box b" by (rule inter_area_pos_proper)
  then have "0 < union_area a b" by (simp add: union_area_pos)
  with assms show False by simp
qed

lemma inter_area_disjoint: "disjoint_boxes a b \<Longrightarrow> inter_area a b = 0"
  by (cases a, cases b) (auto simp: Let_def max_def min_def)

lemma eps32_pos: "0 < eps32"
  by (simp add: eps32_def)

text \<open>
  Claim C3, as the code has it. For two identical boxes of positive width and height
  \<open>bboxes_iou\<close> is exactly 1. For two disjoint boxes of positive width and height the
  quotient is 0 and the maximum with \<^verbatim>\<open>np.finfo(np.float32).eps\<close> lifts it: the result
  is \<open>eps32\<close>, that is \<open>1 / 2 ^ 23\<close>, which is positive, so never negative and never 0.
\<close>

theorem iou_identical_disjoint:
  "(proper_box a \<longrightarrow> bboxes_iou a a = Num 1) \<and>
   (proper_box a \<and> proper_box b \<and> disjoint_boxes a b \<longrightarrow>
      bboxes_iou a b = Num eps32 \<and> 0 < eps32)"
proof (intro conjI impI)
  assume p: "proper_box a"
  then have "union_area a a = box_area a" "inter_area a a = box_area a" "0 < box_area a"
    by (simp_all add: union_area_def inter_area_self box_area_pos)
  moreover have "eps32 \<le> 1" by (simp add: eps32_def)
  ultimately show "bboxes_iou a a = Num 1"
    by (simp add: bboxes_iou_def np_divide_def max_def)
next
  assume h: "proper_box a \<and> proper_box b \<and> disjoint_boxes a b"
  then have "inter_area a b = 0" "0 < union_area a b"
    by (simp_all add: inter_area_disjoint union_area_pos)
  then show "bboxes_iou a b = Num eps32"
    using eps32_pos by (simp add: bboxes_iou_def np_divide_def max_def)
next
  show "0 < eps32" by (rule eps32_pos)
qed

theorem iou_identical_disjoint_witness:
  "proper_box (0, 0, 1, 1) \<and> proper_box (2, 2, 3, 3) \<and> disjoint_boxes (0, 0, 1, 1) (2, 2, 3, 3) \<and>
   bboxes_iou (0, 0, 1, 1) (0, 0, 1, 1) = Num 1 \<and>
   bboxes_iou (0, 0, 1, 1) (2, 2, 3, 3) = Num eps32 \<and> 0 < eps32"
  using iou_identical_disjoint [of "(0, 0, 1, 1)" "(2, 2, 3, 3)"] by simp

text \<open>
  The unit square and a square away from it: the overlap measure is not 0.0.
\<close>

theorem iou_disjoint_not_zero: "bboxes_iou (0, 0, 1, 1) (2, 2, 3, 3) \<noteq> Num 0"
  by (simp add: bboxes_iou_def np_divide_def union_area_def Let_def eps32_def)

text \<open>
  Claim C4, as the code has it. The quotient is computed before the maximum is taken, so
  a pair of boxes whose union area is zero is divided by zero: the intersection is then
  zero as well, \<open>0 / 0\<close> is \<open>nan\<close>, and \<^verbatim>\<open>np.maximum\<close> hands the \<open>nan\<close> on. The
  rows that the NMS loop passes have positive width and height; for those the union area
  is positive and the result is the quotient, raised to \<open>eps32\<close> where it is smaller.
\<close>

theorem iou_division_unguarded:
  "(union_area a b = 0 \<longrightarrow> bboxes_iou a b = NaN) \<and>
   (proper_box a \<and> proper_box b \<longrightarrow>
      0 < union_area a b \<and>
      bboxes_iou a b = Num (max (inter_area a b / union_area a b) eps32))"
proof (intro conjI impI)
  assume u: "union_area a b = 0"
  then have "inter_area a b = 0" by (rule union_zero_inter_zero)
  with u show "bboxes_iou a b = NaN"
    by (simp add: bboxes_iou_def np_divide_def)
next
  assume "proper_box a \<and> proper_box b"
  then show "0 < union_area a b" by (simp add: union_area_pos)
next
  assume "proper_box a \<and> proper_box b"
  then have "0 < union_area a b" by (simp add: union_area_pos)
  then show "bboxes_iou a b = Num (max (inter_area a b / union_area a b) eps32)"
    by (simp add: bboxes_iou_def np_divide_def)
qed

theorem iou_division_unguarded_witness:
  "union_area (0, 0, 0, 0) (1, 1, 1, 1) = 0 \<and> bboxes_iou (0, 0, 0, 0) (1, 1, 1, 1) = NaN \<and>
   proper_box (0, 0, 2, 2) \<and> proper_box (1, 1, 3, 3) \<and>
   0 < union_area (0, 0, 2, 2) (1, 1, 3, 3) \<and>
   bboxes_iou (0, 0, 2, 2) (1, 1, 3, 3) = Num (1 / 7)"
  using iou_division_unguarded [of "(0, 0, 0, 0)" "(1, 1, 1, 1)"]
    iou_division_unguarded [of "(0, 0, 2, 2)" "(1, 1, 3, 3)"]
  by (simp add: union_area_def Let_def eps32_def)

text \<open>
  Two empty boxes at the origin: the union area is zero and the result is \<open>nan\<close>, not
  \<open>eps32\<close>.
\<close>

theorem iou_zero_union_nan:
  "union_area (0, 0, 0, 0) (0, 0, 0, 0) = 0 \<and>
   bboxes_iou (0, 0, 0, 0) (0, 0, 0, 0) = NaN \<and>
   bboxes_iou (0, 0, 0, 0) (0, 0, 0, 0) \<noteq> Num eps32"
  by (simp add: bboxes_iou_def np_divide_def union_area_def Let_def)

section \<open>Properties of the suppression loops\<close>

lemma argmax_less: "zs \<noteq> [] \<Longrightarrow> argmax zs < length zs"
  by (induction zs rule: argmax.induct) (simp_all add: Let_def)

lemma argmax_max: "z \<in> set zs \<Longrightarrow> z \<le> zs ! argmax zs"
proof (induction zs arbitrary: z rule: argmax.induct)
  case 1
  then show ?case by simp
next
  case (2 x)
  then show ?case by simp
next
  case (3 x y ys)
  show ?case
  proof (cases "z = x")
    case True
    then show ?thesis by (simp add: Let_def)
  next
    case False
    with "3.prems" have "z \<in> set (y # ys)" by simp
    then have "z \<le> (y # ys) ! argmax (y # ys)" by (rule "3.IH")
    then show ?thesis by (auto simp: Let_def)
  qed
qed


lemma suppress_filter:
  "suppress best xs =
     filter (\<lambda>b. \<not> np_greater (bboxes_iou (coords best) (coords b)) iou_threshold \<and> 0 < score b) xs"
proof -
  have "map (\<lambda>(b, w). b\<lparr>score := score b * w\<rparr>)
          (zip ys (map (\<lambda>v. if np_greater v iou_threshold then 0 else (1::real))
                     (map (\<lambda>b. bboxes_iou (coords best) (coords b)) ys)))
        = map (\<lambda>b. b\<lparr>score := score b *
               (if np_greater (bboxes_iou (coords best) (coords b)) iou_threshold then 0 else 1)\<rparr>) ys"
    for ys
    by (induction ys) simp_all
  then show ?thesis
    unfolding suppress_def Let_def
    by (induction xs) auto
qed

lemma length_suppress: "length (suppress best xs) \<le> length xs"
  by (simp add: suppress_filter)

lemma nms_body_fst_less:
  "xs \<noteq> [] \<Longrightarrow> length (fst (nms_body xs best)) < length xs"
proof -
  assume ne: "xs \<noteq> []"
  let ?i = "argmax (map score xs)"
  have i: "?i < length xs" using argmax_less [of "map score xs"] ne by simp
  have "length (fst (nms_body xs best)) \<le> length (take ?i xs @ drop (?i + 1) xs)"
    by (simp add: nms_body_def Let_def length_suppress del: length_append)
  also have "\<dots> < length xs" using i by simp
  finally show ?thesis .
qed

lemma nms_body_snd: "snd (nms_body xs best) = best @ [xs ! argmax (map score xs)]"
  by (simp add: nms_body_def Let_def)



lemma nms_loop_Nil [simp]: "nms_loop [] best = best"
  by (simp add: nms_loop.simps)


lemma nms_while_loop: "nms_while xs best = Some (nms_loop xs best)"
proof (induction "length xs" arbitrary: xs best rule: less_induct)
  case less
  show ?case
  proof (cases "xs = []")
    case True
    then show ?thesis by (simp add: nms_while.simps)
  next
    case False
    obtain c b where cb: "nms_body xs best = (c, b)" by (cases "nms_body xs best")
    then have "length c < length xs" using nms_body_fst_less [OF False, of best] by simp
    then have "nms_while c b = Some (nms_loop c b)" by (rule less)
    then show ?thesis using False cb
      by (subst nms_while.simps, subst nms_loop.simps) simp
  qed
qed

















lemma mset_remove_nth:
  assumes "i < length xs"
  shows "mset (take i xs @ drop (Suc i) xs) = mset xs - {#xs ! i#}"
proof -
  have "mset xs = mset (take i xs @ xs ! i # drop (Suc i) xs)"
    using id_take_nth_drop [OF assms] by simp
  then show ?thesis by simp
qed

lemma nms_body_remaining:
  assumes "xs \<noteq> []"
  shows "mset (fst (nms_body xs best)) \<subseteq># mset xs - {#xs ! argmax (map score xs)#}"
proof -
  let ?i = "argmax (map score xs)"
  have i: "?i < length xs" using argmax_less [of "map score xs"] assms by simp
  have "fst (nms_body xs best) =
      filter (\<lambda>b. \<not> np_greater (bboxes_iou (coords (xs ! ?i)) (coords b)) iou_threshold \<and> 0 < score b)
        (take ?i xs @ drop (Suc ?i) xs)"
    by (simp add: nms_body_def Let_def suppress_filter)
  then have "mset (fst (nms_body xs best)) \<subseteq># mset (take ?i xs @ drop (Suc ?i) xs)"
    by (simp only: mset_filter multiset_filter_subset)
  then show ?thesis using mset_remove_nth [OF i] by simp
qed

lemma nms_body_emits_max:
  assumes "x \<in> set xs"
  shows "score x \<le> score (xs ! argmax (map score xs))"
proof -
  from assms have ne: "xs \<noteq> []" by auto
  have "score x \<in> set (map score xs)" using assms by simp
  then have "score x \<le> map score xs ! argmax (map score xs)" by (rule argmax_max)
  then show ?thesis using argmax_less [of "map score xs"] ne by simp
qed

text \<open>
  Claim C10. The \<^verbatim>\<open>while\<close> loop, modelled with no assumption that it ends, returns
  for every list of remaining rows and every list of emitted rows (and returns what the
  total function does). One iteration on a non-empty list emits the row at the first
  maximum of the scores, which no remaining row exceeds, keeps only rows of the list
  other than that one, and so leaves strictly fewer rows.
\<close>

theorem nms_loop_terminates:
  "nms_while cls_bboxes best_bboxes = Some (nms_loop cls_bboxes best_bboxes) \<and>
   snd (nms_body (b # cls_bboxes) best_bboxes) =
     best_bboxes @ [(b # cls_bboxes) ! argmax (map score (b # cls_bboxes))] \<and>
   (\<forall>x\<in>set (b # cls_bboxes).
      score x \<le> score ((b # cls_bboxes) ! argmax (map score (b # cls_bboxes)))) \<and>
   mset (fst (nms_body (b # cls_bboxes) best_bboxes)) \<subseteq>#
     mset (b # cls_bboxes) - {#(b # cls_bboxes) ! argmax (map score (b # cls_bboxes))#} \<and>
   length (fst (nms_body (b # cls_bboxes) best_bboxes)) < length (b # cls_bboxes)"
proof (intro conjI ballI)
  show "nms_while cls_bboxes best_bboxes = Some (nms_loop cls_bboxes best_bboxes)"
    by (rule nms_while_loop)
  show "snd (nms_body (b # cls_bboxes) best_bboxes) =
     best_bboxes @ [(b # cls_bboxes) ! argmax (map score (b # cls_bboxes))]"
    by (rule nms_body_snd)
  show "mset (fst (nms_body (b # cls_bboxes) best_bboxes)) \<subseteq>#
     mset (b # cls_bboxes) - {#(b # cls_bboxes) ! argmax (map score (b # cls_bboxes))#}"
    by (rule nms_body_remaining) simp
  show "length (fst (nms_body (b # cls_bboxes) best_bboxes)) < length (b # cls_bboxes)"
    by (rule nms_body_fst_less) simp
next
  fix x assume "x \<in> set (b # cls_bboxes)"
  then show "score x \<le> score ((b # cls_bboxes) ! argmax (map score (b # cls_bboxes)))"
    by (rule nms_body_emits_max)
qed

theorem nms_loop_terminates_witness:
  "nms_while [\<lparr>coords = (0, 0, 10, 11), class_id = 1, score = 4 / 5\<rparr>] [] =
     Some [\<lparr>coords = (0, 0, 10, 11), class_id = 1, score = 4 / 5\<rparr>] \<and>
   nms_body
     [\<lparr>coords = (0, 0, 10, 10), class_id = 1, score = 3 / 5\<rparr>,
      \<lparr>coords = (0, 0, 10, 11), class_id = 1, score = 4 / 5\<rparr>] [] =
   ([], [\<lparr>coords = (0, 0, 10, 11), class_id = 1, score = 4 / 5\<rparr>]) \<and>
   score \<lparr>coords = (0, 0, 10, 10), class_id = 1, score = 3 / 5\<rparr>
     \<le> score \<lparr>coords = (0, 0, 10, 11), class_id = 1, score = 4 / 5\<rparr>"
proof -
  let ?a = "\<lparr>coords = (0, 0, 10, 10), class_id = 1, score = 3 / 5\<rparr>"
  let ?b = "\<lparr>coords = (0, 0, 10, 11), class_id = 1, score = 4 / 5\<rparr>"
  have l: "nms_loop [?b] [] = [?b]"
    by (simp add: nms_loop.simps nms_body_def suppress_def Let_def)
  have m: "[?a, ?b] ! argmax (map score [?a, ?b]) = ?b" by simp
  have n: "nms_body [?a, ?b] [] = ([], [?b])"
    by (simp add: nms_body_def suppress_def Let_def bboxes_iou_def
        np_divide_def union_area_def eps32_def iou_threshold_def)
  from nms_loop_terminates [of "[?b]" "[]" ?a] l m n show ?thesis by simp
qed


lemma nms_example:
  "nms [1]
     [\<lparr>coords = (0, 0, 10, 10), class_id = 1, score = 6 / 10\<rparr>,
      \<lparr>coords = (0, 0, 10, 11), class_id = 1, score = 8 / 10\<rparr>] =
   [\<lparr>coords = (0, 0, 10, 11), class_id = 1, score = 8 / 10\<rparr>]"
  by (simp add: nms_def nms_loop.simps nms_body_def suppress_def Let_def bboxes_iou_def
      np_divide_def union_area_def eps32_def iou_threshold_def)

section \<open>Properties of the label table\<close>

lemma load_labels_from_yolo:
  assumes "map parse_line lines = map Inr entries" "[] \<notin> set lines"
  shows "load_labels_from True lines off (i2l, l2i) =
     Inr (i2l ++ map_of (rev (zip (map int [off..<off + length entries]) (map snd entries))),
          l2i ++ map_of (rev (zip (map snd entries) (map int [off..<off + length entries]))))"
  using assms
proof (induction lines arbitrary: entries off i2l l2i)
  case Nil
  then show ?case by simp
next
  case (Cons line lines)
  from Cons.prems obtain idx label rest where e: "entries = (idx, label) # rest"
    and p: "parse_line line = Inr (idx, label)" and r: "map parse_line lines = map Inr rest"
    by (cases entries) auto
  from Cons.prems have ne: "line \<noteq> []" "[] \<notin> set lines" by auto
  have up: "[off..<off + length entries] = off # [Suc off..<Suc off + length rest]"
    using e by (simp add: upt_rec)
  have "load_labels_from True (line # lines) off (i2l, l2i) =
      load_labels_from True lines (Suc off) (i2l(int off \<mapsto> label), l2i(label \<mapsto> int off))"
    using ne p by simp
  also have "\<dots> = Inr (i2l(int off \<mapsto> label) ++
        map_of (rev (zip (map int [Suc off..<Suc off + length rest]) (map snd rest))),
      l2i(label \<mapsto> int off) ++
        map_of (rev (zip (map snd rest) (map int [Suc off..<Suc off + length rest]))))"
    by (rule Cons.IH [OF r ne(2)])
  also have "\<dots> = Inr (i2l ++ map_of (rev (zip (map int [off..<off + length entries]) (map snd entries))),
          l2i ++ map_of (rev (zip (map snd entries) (map int [off..<off + length entries]))))"
    unfolding up by (simp add: e del: upt_Suc)
  finally show ?case .
qed

lemma load_labels_from_ssd:
  assumes "map parse_line lines = map Inr entries" "[] \<notin> set lines"
  shows "load_labels_from False lines off (i2l, l2i) =
     Inr (i2l ++ map_of (rev entries), l2i ++ map_of (rev (map prod.swap entries)))"
  using assms
proof (induction lines arbitrary: entries off i2l l2i)
  case Nil
  then show ?case by simp
next
  case (Cons line lines)
  from Cons.prems obtain idx label rest where e: "entries = (idx, label) # rest"
    and p: "parse_line line = Inr (idx, label)" and r: "map parse_line lines = map Inr rest"
    by (cases entries) auto
  from Cons.prems have ne: "line \<noteq> []" "[] \<notin> set lines" by auto
  have "load_labels_from False (line # lines) off (i2l, l2i) =
      load_labels_from False lines (Suc off) (i2l(idx \<mapsto> label), l2i(label \<mapsto> idx))"
    using ne p by simp
  also have "\<dots> = Inr (i2l(idx \<mapsto> label) ++ map_of (rev rest),
      l2i(label \<mapsto> idx) ++ map_of (rev (map prod.swap rest)))"
    by (rule Cons.IH [OF r ne(2)])
  also have "\<dots> = Inr (i2l ++ map_of (rev entries), l2i ++ map_of (rev (map prod.swap entries)))"
    by (simp add: e)
  finally show ?case .
qed

lemma map_of_rev_zip_upt:
  assumes "n < length ys"
  shows "map_of (rev (zip (map int [0..<length ys]) ys)) (int n) = Some (ys ! n)"
proof -
  have d: "distinct (map fst (rev (zip (map int [0..<length ys]) ys)))"
    by (simp add: rev_map [symmetric] distinct_map inj_on_def)
  have "(int n, ys ! n) \<in> set (zip (map int [0..<length ys]) ys)"
    using assms by (auto simp: set_zip intro!: exI [of _ n])
  then show ?thesis using d by simp
qed

text \<open>
  Claim C8. For a label file whose lines all parse, to the pairs \<open>entries\<close> of index and
  label, the loader succeeds for both model families. For an anchor model the table
  \<open>id2label\<close> maps the number of each line, counted from 0, to the label of that line,
  whatever index the line prints. For a direct model it is the table of the printed
  indices (a later line overrides an earlier one with the same index), so with distinct
  indices every line's index maps to its label. \<open>label2id\<close> is built alongside from the
  same lines.
\<close>

theorem label_tables_dual:
  assumes "map parse_line lines = map Inr entries" "[] \<notin> set lines"
  shows "load_labels True lines =
           Inr (map_of (rev (zip (map int [0..<length entries]) (map snd entries))),
                map_of (rev (zip (map snd entries) (map int [0..<length entries])))) \<and>
         (\<forall>n<length entries.
            map_of (rev (zip (map int [0..<length entries]) (map snd entries))) (int n) =
            Some (snd (entries ! n))) \<and>
         load_labels False lines =
           Inr (map_of (rev entries), map_of (rev (map prod.swap entries))) \<and>
         (distinct (map fst entries) \<longrightarrow>
            (\<forall>n<length entries. map_of (rev entries) (fst (entries ! n)) = Some (snd (entries ! n))))"
proof (intro conjI allI impI)
  show "load_labels True lines =
           Inr (map_of (rev (zip (map int [0..<length entries]) (map snd entries))),
                map_of (rev (zip (map snd entries) (map int [0..<length entries]))))"
    using load_labels_from_yolo [OF assms, of 0 Map.empty Map.empty]
    by (simp add: load_labels_def)
next
  fix n assume "n < length entries"
  then show "map_of (rev (zip (map int [0..<length entries]) (map snd entries))) (int n) =
            Some (snd (entries ! n))"
    using map_of_rev_zip_upt [of n "map snd entries"] by simp
next
  show "load_labels False lines = Inr (map_of (rev entries), map_of (rev (map prod.swap entries)))"
    using load_labels_from_ssd [OF assms, of 0 Map.empty Map.empty]
    by (simp add: load_labels_def)
next
  fix n assume d: "distinct (map fst entries)" and n: "n < length entries"
  then have "entries ! n \<in> set (rev entries)" by simp
  moreover have "distinct (map fst (rev entries))" using d by (simp add: rev_map [symmetric])
  ultimately show "map_of (rev entries) (fst (entries ! n)) = Some (snd (entries ! n))"
    by (metis map_of_is_SomeI prod.collapse)
qed

lemma parse_ex1: "parse_line ''0  person\<newline>'' = Inr (0, ''person'')"
  by (simp add: parse_line_def strip_def split_space_once_def is_space_def py_int_def
      replace_space_def is_digit_def digits_value_def Let_def)

lemma parse_ex2: "parse_line ''9  traffic light\<newline>'' = Inr (9, ''traffic_light'')"
  by (simp add: parse_line_def strip_def split_space_once_def is_space_def py_int_def
      replace_space_def is_digit_def digits_value_def Let_def)

lemma parse_ex3: "parse_line ''12  stop sign\<newline>'' = Inr (12, ''stop_sign'')"
  by (simp add: parse_line_def strip_def split_space_once_def is_space_def py_int_def
      replace_space_def is_digit_def digits_value_def Let_def)

section \<open>Properties of the two decoders\<close>

lemma ssd_loop_result:
  "ssd_loop d outputs idxs acc = Inr frames \<Longrightarrow>
   frames = acc @ List.map_filter (\<lambda>i. case ssd_entry d outputs i of Inl e \<Rightarrow> None | Inr r \<Rightarrow> r) idxs"
proof (induction idxs arbitrary: acc)
  case Nil
  then show ?case by (simp add: List.map_filter_simps)
next
  case (Cons i idxs)
  show ?case
  proof (cases "ssd_entry d outputs i")
    case (Inl e)
    with Cons.prems show ?thesis by simp
  next
    case (Inr r)
    show ?thesis
    proof (cases r)
      case None
      with Inr Cons.prems have "ssd_loop d outputs idxs acc = Inr frames" by simp
      from Cons.IH [OF this] Inr None show ?thesis by (simp add: List.map_filter_simps)
    next
      case (Some f)
      with Inr Cons.prems have "ssd_loop d outputs idxs (acc @ [f]) = Inr frames" by simp
      from Cons.IH [OF this] Inr Some show ?thesis by (simp add: List.map_filter_simps)
    qed
  qed
qed

lemma ssd_loop_no_error:
  "ssd_loop d outputs idxs acc = Inr frames \<Longrightarrow> i \<in> set idxs \<Longrightarrow> \<exists>r. ssd_entry d outputs i = Inr r"
proof (induction idxs arbitrary: acc)
  case Nil
  then show ?case by simp
next
  case (Cons j idxs)
  then show ?case
    by (cases "ssd_entry d outputs j") (auto split: option.splits)
qed

lemma ssd_loop_member:
  assumes "ssd_loop d outputs idxs acc = Inr frames" "i \<in> set idxs"
    "ssd_entry d outputs i = Inr (Some f)"
  shows "f \<in> set frames"
  using ssd_loop_result [OF assms(1)] assms(2,3)
  by (auto simp: List.map_filter_def intro!: image_eqI [of _ _ i])

lemma ssd_entry_unknown:
  "\<not> ssd_known d outputs i \<Longrightarrow> ssd_entry d outputs i = Inr r \<Longrightarrow> r = None"
  by (auto simp: ssd_known_def ssd_entry_def Let_def split: sum.splits prod.splits option.splits)

lemma ssd_loop_known:
  "ssd_loop d outputs idxs acc = Inr frames \<Longrightarrow>
   ssd_loop d outputs (filter (ssd_known d outputs) idxs) acc = Inr frames"
proof (induction idxs arbitrary: acc)
  case Nil
  then show ?case by simp
next
  case (Cons j idxs)
  show ?case
  proof (cases "ssd_entry d outputs j")
    case (Inl e)
    with Cons.prems show ?thesis by simp
  next
    case (Inr r)
    show ?thesis
    proof (cases "ssd_known d outputs j")
      case True
      with Inr Cons show ?thesis by (auto split: option.splits)
    next
      case False
      with Inr have "r = None" using ssd_entry_unknown by blast
      with Inr False Cons show ?thesis by simp
    qed
  qed
qed

lemma ssd_loop_length:
  "ssd_loop d outputs idxs acc = Inr frames \<Longrightarrow> length frames \<le> length acc + length idxs"
proof (induction idxs arbitrary: acc)
  case Nil
  then show ?case by simp
next
  case (Cons j idxs)
  then show ?case
    by (cases "ssd_entry d outputs j") (fastforce split: option.splits)+
qed

lemma ssd_entry_name:
  "ssd_entry d outputs i = Inr (Some f) \<Longrightarrow> \<exists>cid. id2label d cid = Some (name f)"
  by (auto simp: ssd_entry_def Let_def split: sum.splits prod.splits option.splits if_splits)

lemma ssd_frames_named:
  assumes "ssd_loop d outputs idxs [] = Inr frames" "f \<in> set frames"
  shows "\<exists>cid. id2label d cid = Some (name f)"
proof -
  from ssd_loop_result [OF assms(1)] assms(2)
  obtain i where "ssd_entry d outputs i = Inr (Some f)"
    by (auto simp: List.map_filter_def split: sum.splits)
  then show ?thesis by (rule ssd_entry_name)
qed

lemma yolo_frames_known:
  "yolo_frames d best = yolo_frames d (filter (\<lambda>b. id2label d (class_id b) \<noteq> None) best)"
proof (induction best)
  case Nil
  then show ?case by simp
next
  case (Cons b best)
  then show ?case
    by (auto simp: yolo_frames_def List.map_filter_simps yolo_frame_def Let_def split: option.splits)
qed

lemma length_map_filter: "length (List.map_filter f xs) \<le> length xs"
  by (simp add: List.map_filter_def)

text \<open>
  Claim C9. In the direct decoder a slot whose class id has no label is skipped, with no
  error; the frames returned are those of the loop run on the slots with a labelled class
  only, so there are at most as many as such slots, and every frame carries a label of the
  table. In the anchor decoder a suppressed row whose class id has no label yields no
  frame; the frames are those of the rows with a labelled class, and at most as many.
\<close>

theorem unknown_class_dropped:
  "(squeezed_index (detections outputs) i = Inr (b, c, s) \<and> id2label d (py_trunc c) = None \<longrightarrow>
      ssd_entry d outputs i = Inr None) \<and>
   (get_frames_ssd d outputs = Inr frames \<longrightarrow>
      ssd_loop d outputs
        (filter (ssd_known d outputs) [0..<nat (py_trunc (valid_count outputs))]) [] = Inr frames \<and>
      length frames \<le>
        length (filter (ssd_known d outputs) [0..<nat (py_trunc (valid_count outputs))]) \<and>
      (\<forall>f\<in>set frames. \<exists>cid. id2label d cid = Some (name f))) \<and>
   (id2label d (class_id r) = None \<longrightarrow> yolo_frame d r = None) \<and>
   yolo_frames d best = yolo_frames d (filter (\<lambda>x. id2label d (class_id x) \<noteq> None) best) \<and>
   length (yolo_frames d best) \<le> length (filter (\<lambda>x. id2label d (class_id x) \<noteq> None) best)"
proof (intro conjI impI ballI)
  assume "squeezed_index (detections outputs) i = Inr (b, c, s) \<and> id2label d (py_trunc c) = None"
  then show "ssd_entry d outputs i = Inr None"
    by (simp add: ssd_entry_def Let_def)
next
  assume "get_frames_ssd d outputs = Inr frames"
  then have l: "ssd_loop d outputs [0..<nat (py_trunc (valid_count outputs))] [] = Inr frames"
    by (simp add: get_frames_ssd_def Let_def)
  then show k: "ssd_loop d outputs
        (filter (ssd_known d outputs) [0..<nat (py_trunc (valid_count outputs))]) [] = Inr frames"
    by (rule ssd_loop_known)
  show "length frames \<le>
        length (filter (ssd_known d outputs) [0..<nat (py_trunc (valid_count outputs))])"
    using ssd_loop_length [OF k] by simp
  fix f assume "f \<in> set frames"
  with l show "\<exists>cid. id2label d cid = Some (name f)" by (rule ssd_frames_named)
next
  assume "id2label d (class_id r) = None"
  then show "yolo_frame d r = None" by (simp add: yolo_frame_def Let_def)
next
  show "yolo_frames d best = yolo_frames d (filter (\<lambda>x. id2label d (class_id x) \<noteq> None) best)"
    by (rule yolo_frames_known)
next
  have "length (yolo_frames d (filter (\<lambda>x. id2label d (class_id x) \<noteq> None) best))
      \<le> length (filter (\<lambda>x. id2label d (class_id x) \<noteq> None) best)"
    unfolding yolo_frames_def by (rule length_map_filter)
  then show "length (yolo_frames d best) \<le> length (filter (\<lambda>x. id2label d (class_id x) \<noteq> None) best)"
    using yolo_frames_known [of d best] by simp
qed

lemma mask_score: "mask d b \<Longrightarrow> threshold d < score b"
  by (auto simp: mask_def Let_def split: prod.splits)

text \<open>
  Claim C1, as the code has it. In the direct decoder a slot whose score equals the
  threshold (with a labelled class that passes the target filter) is appended to the
  frames. The mask before the suppression of the anchor decoder is
  \<^verbatim>\<open>scores > self.threshold\<close>: it rejects a row whose score equals the threshold, and
  every row it keeps scores strictly above. The check after the suppression is again
  \<^verbatim>\<open>prob < self.threshold\<close> and keeps a row whose score equals the threshold.
\<close>

theorem threshold_boundary:
  "(squeezed_index (detections outputs) i = Inr (b, c, s) \<and> s = threshold d \<and>
    id2label d (py_trunc c) = Some nm \<and> (target_id d = - 1 \<or> target_id d = py_trunc c) \<longrightarrow>
      ssd_entry d outputs i = Inr (Some \<lparr>name = nm, prob = threshold d, bbox = ssd_bbox d b\<rparr>) \<and>
      (i < nat (py_trunc (valid_count outputs)) \<and> get_frames_ssd d outputs = Inr frames \<longrightarrow>
         \<lparr>name = nm, prob = threshold d, bbox = ssd_bbox d b\<rparr> \<in> set frames)) \<and>
   (score r = threshold d \<longrightarrow> \<not> mask d r) \<and>
   (pre_nms d pred_bbox = Inr bboxes \<longrightarrow> (\<forall>x\<in>set bboxes. threshold d < score x)) \<and>
   (score r = threshold d \<and> id2label d (class_id r) = Some nm' \<and>
    (target_id d = - 1 \<or> target_id d = class_id r) \<longrightarrow>
      (\<exists>f. yolo_frame d r = Some f \<and> prob f = threshold d))"
proof (intro conjI impI ballI)
  assume h: "squeezed_index (detections outputs) i = Inr (b, c, s) \<and> s = threshold d \<and>
    id2label d (py_trunc c) = Some nm \<and> (target_id d = - 1 \<or> target_id d = py_trunc c)"
  then show e: "ssd_entry d outputs i = Inr (Some \<lparr>name = nm, prob = threshold d, bbox = ssd_bbox d b\<rparr>)"
    by (auto simp: ssd_entry_def Let_def)
  assume "i < nat (py_trunc (valid_count outputs)) \<and> get_frames_ssd d outputs = Inr frames"
  then have "ssd_loop d outputs [0..<nat (py_trunc (valid_count outputs))] [] = Inr frames"
    and "i \<in> set [0..<nat (py_trunc (valid_count outputs))]"
    by (simp_all add: get_frames_ssd_def Let_def)
  then show "\<lparr>name = nm, prob = threshold d, bbox = ssd_bbox d b\<rparr> \<in> set frames"
    using e by (rule ssd_loop_member)
next
  assume "score r = threshold d"
  then show "\<not> mask d r" using mask_score [of d r] by auto
next
  fix x assume "pre_nms d pred_bbox = Inr bboxes" "x \<in> set bboxes"
  then have "mask d x" by (auto simp: pre_nms_def split: if_splits)
  then show "threshold d < score x" by (rule mask_score)
next
  assume "score r = threshold d \<and> id2label d (class_id r) = Some nm' \<and>
    (target_id d = - 1 \<or> target_id d = class_id r)"
  then show "\<exists>f. yolo_frame d r = Some f \<and> prob f = threshold d"
    by (auto simp: yolo_frame_def Let_def split: prod.splits)
qed

text \<open>
  A decoded row with a 20 by 20 box and a score equal to the threshold 1/2: the mask
  before the suppression removes it.
\<close>

theorem threshold_boundary_yolo_counterexample:
  "score (candidate example_detector example_row) = threshold example_detector \<and>
   proper_box (coords (candidate example_detector example_row)) \<and>
   pre_nms example_detector [example_row] = Inr []"
  by (simp add: candidate_def example_detector_def example_row_def yolo_box_def Let_def
      pre_nms_def mask_def)













lemma ssd_example_frames:
  "get_frames_ssd example_detector example_ssd_outputs =
     Inr [\<lparr>name = ''cat'', prob = 9 / 10, bbox = (64, 64, 320, 320)\<rparr>,
          \<lparr>name = ''person'', prob = 1 / 2, bbox = (768, 64, 640, 320)\<rparr>]"
  by (simp add: get_frames_ssd_def example_detector_def example_ssd_outputs_def py_trunc_def
      upt_rec [of 0] upt_rec [of 1] upt_rec [of 2] upt_rec [of 3] numeral_3_eq_3
      ssd_entry_def squeezed_index_def Let_def)

lemma concat_map_upt_uniform:
  assumes "\<And>j. j < n \<Longrightarrow> length (f j) = m"
  shows "length (concat (map f [0..<n])) = n * m \<and>
         (\<forall>j<n. \<forall>k<m. concat (map f [0..<n]) ! (j * m + k) = f j ! k)"
  using assms
proof (induction n)
  case 0
  then show ?case by simp
next
  case (Suc n)
  then have IH: "length (concat (map f [0..<n])) = n * m"
    "\<And>j k. j < n \<Longrightarrow> k < m \<Longrightarrow> concat (map f [0..<n]) ! (j * m + k) = f j ! k"
    by simp_all
  have len: "length (f n) = m" using Suc.prems by simp
  show ?case
  proof (intro conjI allI impI)
    show "length (concat (map f [0..<Suc n])) = Suc n * m" using IH(1) len by simp
  next
    fix j k assume j: "j < Suc n" and k: "k < m"
    show "concat (map f [0..<Suc n]) ! (j * m + k) = f j ! k"
    proof (cases "j < n")
      case True
      then have "Suc j \<le> n" by simp
      then have "Suc j * m \<le> n * m" by (rule mult_le_mono1)
      with k have "j * m + k < n * m" by simp
      then show ?thesis using IH True k by (simp add: nth_append)
    next
      case False
      with j have "j = n" by simp
      then show ?thesis using IH(1) by (simp add: nth_append)
    qed
  qed
qed

lemma xy_offset_square:
  "j < n \<Longrightarrow> k < n \<Longrightarrow> xy_offset n n j k = (real k, real j)"
  by (simp add: xy_offset_def meshgrid_def)

text \<open>
  Claim C7, as the code has it. The strides are the integer quotients
  \<^verbatim>\<open>image_width // pred_shape[1]\<close> and \<^verbatim>\<open>image_height // pred_shape[2]\<close>. The decoder
  succeeds only on a square grid; there, the row of the cell at index \<open>j\<close> of the second
  tensor axis and \<open>k\<close> of the third, for anchor \<open>a\<close>, has the centre
  \<open>((raw_xy * xyscale) - 0.5 * (xyscale - 1) + (k, j)) * stride\<close> and the size
  \<open>raw_wh * anchor\<close>: the offset added to x is the index along the third axis, the offset
  added to y the index along the second.
\<close>

theorem anchor_decode_cell:
  assumes "shape1 pred = shape2 pred" "0 < shape1 pred" "i < length anchors" "i < length xyscales"
    and "j < shape1 pred" "k < shape2 pred" "a < 3"
  shows "strides d pred =
           (image_width d div int (shape2 pred), image_height d div int (shape1 pred)) \<and>
         (\<exists>rows. decode_scale d anchors xyscales i pred = Inr rows \<and>
            length rows = shape1 pred * shape2 pred * 3 \<and>
            rows ! ((j * shape2 pred + k) * 3 + a) =
              \<lparr>row_x = ((entry pred j k a 0 * xyscales ! i) - 0.5 * (xyscales ! i - 1) + real k)
                         * real_of_int (image_width d div int (shape2 pred)),
               row_y = ((entry pred j k a 1 * xyscales ! i) - 0.5 * (xyscales ! i - 1) + real j)
                         * real_of_int (image_height d div int (shape1 pred)),
               row_w = entry pred j k a 2 * fst (anchors ! i ! a),
               row_h = entry pred j k a 3 * snd (anchors ! i ! a),
               row_conf = entry pred j k a 4,
               row_prob = map (\<lambda>c. entry pred j k a (5 + c)) [0..<num_classes pred]\<rparr>) \<and>
         (\<forall>pred' rows'. decode_scale d anchors xyscales i pred' = Inr rows' \<longrightarrow>
            shape1 pred' = shape2 pred')"
proof (intro conjI)
  show st: "strides d pred =
      (image_width d div int (shape2 pred), image_height d div int (shape1 pred))"
    using assms(1) by (simp add: strides_def Let_def)
  let ?cell = "decode_cell (strides d pred) (anchors ! i) (xyscales ! i) pred"
  let ?inner = "\<lambda>j. concat (map (\<lambda>k. map (?cell j k) [0..<3]) [0..<shape2 pred])"
  let ?rows = "concat (map ?inner [0..<shape1 pred])"
  have dec: "decode_scale d anchors xyscales i pred = Inr ?rows"
    using assms(1-4) by (simp add: decode_scale_def Let_def)
  have in1: "length (?inner j') = shape2 pred * 3 \<and>
      (\<forall>k'<shape2 pred. \<forall>a'<3. ?inner j' ! (k' * 3 + a') = map (?cell j' k') [0..<3] ! a')" for j'
    by (rule concat_map_upt_uniform) simp
  have out: "length ?rows = shape1 pred * (shape2 pred * 3) \<and>
      (\<forall>j'<shape1 pred. \<forall>q<shape2 pred * 3. ?rows ! (j' * (shape2 pred * 3) + q) = ?inner j' ! q)"
    by (rule concat_map_upt_uniform) (simp add: in1)
  have "Suc k \<le> shape2 pred" using assms(6) by simp
  then have "Suc k * 3 \<le> shape2 pred * 3" by (rule mult_le_mono1)
  then have q: "k * 3 + a < shape2 pred * 3" using assms(7) by simp
  have "?rows ! ((j * shape2 pred + k) * 3 + a) = ?rows ! (j * (shape2 pred * 3) + (k * 3 + a))"
    by (simp add: algebra_simps)
  also have "\<dots> = ?inner j ! (k * 3 + a)" using out assms(5) q by blast
  also have "\<dots> = map (?cell j k) [0..<3] ! a" using in1 [of j] assms(6,7) by blast
  also have "\<dots> = ?cell j k a" using assms(7) by simp
  finally have cell: "?rows ! ((j * shape2 pred + k) * 3 + a) = ?cell j k a" .
  have off: "xy_offset (shape1 pred) (shape2 pred) j k = (real k, real j)"
    using assms(1,5,6) xy_offset_square [of j "shape2 pred" k] by simp
  have "?cell j k a =
      \<lparr>row_x = ((entry pred j k a 0 * xyscales ! i) - 0.5 * (xyscales ! i - 1) + real k)
                         * real_of_int (image_width d div int (shape2 pred)),
               row_y = ((entry pred j k a 1 * xyscales ! i) - 0.5 * (xyscales ! i - 1) + real j)
                         * real_of_int (image_height d div int (shape1 pred)),
               row_w = entry pred j k a 2 * fst (anchors ! i ! a),
               row_h = entry pred j k a 3 * snd (anchors ! i ! a),
               row_conf = entry pred j k a 4,
               row_prob = map (\<lambda>c. entry pred j k a (5 + c)) [0..<num_classes pred]\<rparr>"
    by (simp add: decode_cell_def Let_def off st)
  with cell dec out
  show "\<exists>rows. decode_scale d anchors xyscales i pred = Inr rows \<and>
            length rows = shape1 pred * shape2 pred * 3 \<and>
            rows ! ((j * shape2 pred + k) * 3 + a) =
              \<lparr>row_x = ((entry pred j k a 0 * xyscales ! i) - 0.5 * (xyscales ! i - 1) + real k)
                         * real_of_int (image_width d div int (shape2 pred)),
               row_y = ((entry pred j k a 1 * xyscales ! i) - 0.5 * (xyscales ! i - 1) + real j)
                         * real_of_int (image_height d div int (shape1 pred)),
               row_w = entry pred j k a 2 * fst (anchors ! i ! a),
               row_h = entry pred j k a 3 * snd (anchors ! i ! a),
               row_conf = entry pred j k a 4,
               row_prob = map (\<lambda>c. entry pred j k a (5 + c)) [0..<num_classes pred]\<rparr>"
    by (simp add: mult.assoc)
  show "\<forall>pred' rows'. decode_scale d anchors xyscales i pred' = Inr rows' \<longrightarrow>
            shape1 pred' = shape2 pred'"
    by (auto simp: decode_scale_def Let_def split: if_splits)
qed

text \<open>
  A model input of 430 by 430 with a 14 by 14 grid: the stride is 30, not 430 / 14.
\<close>

theorem stride_not_exact_quotient:
  "strides (example_detector\<lparr>image_width := 430, image_height := 430\<rparr>)
           (example_pred\<lparr>shape1 := 14, shape2 := 14\<rparr>) = (30, 30) \<and>
   real_of_int (fst (strides (example_detector\<lparr>image_width := 430, image_height := 430\<rparr>)
           (example_pred\<lparr>shape1 := 14, shape2 := 14\<rparr>))) \<noteq> 430 / 14"
  by (simp add: strides_def example_detector_def example_pred_def Let_def)

section \<open>The decoders on the example inputs\<close>

lemma example_label_entries:
  "map parse_line example_label_lines =
     map Inr [(0, ''person''), (9, ''traffic_light''), (12, ''stop_sign'')]"
  by (simp add: example_label_lines_def parse_ex1 parse_ex2 parse_ex3)

theorem label_tables_dual_witness:
  "map parse_line example_label_lines =
     map Inr [(0, ''person''), (9, ''traffic_light''), (12, ''stop_sign'')] \<and>
   [] \<notin> set example_label_lines \<and>
   distinct (map fst [(0::int, ''person''), (9, ''traffic_light''), (12, ''stop_sign'')]) \<and>
   (\<exists>l2i. load_labels True example_label_lines =
      Inr ([0 \<mapsto> ''person'', 1 \<mapsto> ''traffic_light'', 2 \<mapsto> ''stop_sign''], l2i)) \<and>
   (\<exists>l2i. load_labels False example_label_lines =
      Inr ([0 \<mapsto> ''person'', 9 \<mapsto> ''traffic_light'', 12 \<mapsto> ''stop_sign''], l2i))"
proof -
  have h1: "map parse_line example_label_lines =
     map Inr [(0, ''person''), (9, ''traffic_light''), (12, ''stop_sign'')]"
    by (rule example_label_entries)
  have h2: "[] \<notin> set example_label_lines" by (simp add: example_label_lines_def)
  have m1: "map_of (rev (zip (map int [0..<3]) [''person'', ''traffic_light'', ''stop_sign''])) =
      [0 \<mapsto> ''person'', 1 \<mapsto> ''traffic_light'', 2 \<mapsto> ''stop_sign'']"
    by (auto simp: upt_rec [of 0] upt_rec [of 1] upt_rec [of 2] numeral_3_eq_3 fun_eq_iff)
  have m2: "map_of (rev [(0::int, ''person''), (9, ''traffic_light''), (12, ''stop_sign'')]) =
      [0 \<mapsto> ''person'', 9 \<mapsto> ''traffic_light'', 12 \<mapsto> ''stop_sign'']"
    by (auto simp: fun_eq_iff)
  from label_tables_dual [OF h1 h2] m1 m2 h1 h2 show ?thesis by simp
qed


lemma example_slot_person:
  "squeezed_index (detections example_ssd_outputs) 1 = Inr ((1 / 10, 6 / 5, 1 / 2, 3 / 2), 0, 1 / 2)"
  by (simp add: example_ssd_outputs_def squeezed_index_def)

lemma example_slot_unknown:
  "squeezed_index (detections example_ssd_outputs) 2 = Inr ((0, 0, 1, 1), 5, 19 / 20)"
  by (simp add: example_ssd_outputs_def squeezed_index_def)

lemma example_pre_nms:
  "pre_nms example_detector [example_row, example_row_high] =
     Inr [\<lparr>coords = (0, 80, 416, 120), class_id = 0, score = 9 / 10\<rparr>]"
  by (simp add: candidate_def example_detector_def example_row_def example_row_high_def
      yolo_box_def Let_def pre_nms_def mask_def)

theorem unknown_class_dropped_witness:
  "squeezed_index (detections example_ssd_outputs) 2 = Inr ((0, 0, 1, 1), 5, 19 / 20) \<and>
   id2label example_detector (py_trunc 5) = None \<and>
   ssd_entry example_detector example_ssd_outputs 2 = Inr None \<and>
   get_frames_ssd example_detector example_ssd_outputs =
     Inr [\<lparr>name = ''cat'', prob = 9 / 10, bbox = (64, 64, 320, 320)\<rparr>,
          \<lparr>name = ''person'', prob = 1 / 2, bbox = (768, 64, 640, 320)\<rparr>] \<and>
   filter (ssd_known example_detector example_ssd_outputs)
     [0..<nat (py_trunc (valid_count example_ssd_outputs))] = [0, 1] \<and>
   id2label example_detector (class_id example_unknown_bbox) = None \<and>
   yolo_frame example_detector example_unknown_bbox = None \<and>
   yolo_frames example_detector
     [example_unknown_bbox, \<lparr>coords = (0, 80, 416, 120), class_id = 0, score = 9 / 10\<rparr>] =
   [\<lparr>name = ''person'', prob = 9 / 10, bbox = (0, 123, 640, 184)\<rparr>]"
proof -
  have h1: "squeezed_index (detections example_ssd_outputs) 2 = Inr ((0, 0, 1, 1), 5, 19 / 20) \<and>
      id2label example_detector (py_trunc 5) = None"
    by (rule conjI [OF example_slot_unknown]) (simp add: example_detector_def py_trunc_def)
  have h2: "get_frames_ssd example_detector example_ssd_outputs =
     Inr [\<lparr>name = ''cat'', prob = 9 / 10, bbox = (64, 64, 320, 320)\<rparr>,
          \<lparr>name = ''person'', prob = 1 / 2, bbox = (768, 64, 640, 320)\<rparr>]"
    by (rule ssd_example_frames)
  have h3: "id2label example_detector (class_id example_unknown_bbox) = None"
    by (simp add: example_detector_def example_unknown_bbox_def)
  have k: "filter (ssd_known example_detector example_ssd_outputs)
     [0..<nat (py_trunc (valid_count example_ssd_outputs))] = [0, 1]"
    by (simp add: ssd_known_def example_detector_def example_ssd_outputs_def py_trunc_def
        squeezed_index_def upt_rec [of 0] upt_rec [of 1] upt_rec [of 2] upt_rec [of 3]
        numeral_3_eq_3)
  have y: "yolo_frames example_detector
       [\<lparr>coords = (0, 80, 416, 120), class_id = 0, score = 9 / 10\<rparr>] =
     [\<lparr>name = ''person'', prob = 9 / 10, bbox = (0, 123, 640, 184)\<rparr>]"
    by (simp add: yolo_frames_def List.map_filter_simps yolo_frame_def example_detector_def
        scale_width_def scale_height_def py_trunc_def Let_def)
  have f: "filter (\<lambda>x. id2label example_detector (class_id x) \<noteq> None)
       [example_unknown_bbox, \<lparr>coords = (0, 80, 416, 120), class_id = 0, score = 9 / 10\<rparr>] =
     [\<lparr>coords = (0, 80, 416, 120), class_id = 0, score = 9 / 10\<rparr>]"
    by (simp add: example_detector_def example_unknown_bbox_def)
  note c = unknown_class_dropped [of example_ssd_outputs 2 "(0, 0, 1, 1)" 5 "19 / 20"
      example_detector
      "[\<lparr>name = ''cat'', prob = 9 / 10, bbox = (64, 64, 320, 320)\<rparr>,
        \<lparr>name = ''person'', prob = 1 / 2, bbox = (768, 64, 640, 320)\<rparr>]"
      example_unknown_bbox
      "[example_unknown_bbox, \<lparr>coords = (0, 80, 416, 120), class_id = 0, score = 9 / 10\<rparr>]"]
  from c h1 have c1: "ssd_entry example_detector example_ssd_outputs 2 = Inr None" by blast
  from c h3 have c3: "yolo_frame example_detector example_unknown_bbox = None" by blast
  from c have "yolo_frames example_detector
     [example_unknown_bbox, \<lparr>coords = (0, 80, 416, 120), class_id = 0, score = 9 / 10\<rparr>] =
     yolo_frames example_detector (filter (\<lambda>x. id2label example_detector (class_id x) \<noteq> None)
       [example_unknown_bbox, \<lparr>coords = (0, 80, 416, 120), class_id = 0, score = 9 / 10\<rparr>])"
    by blast
  then have c4: "yolo_frames example_detector
     [example_unknown_bbox, \<lparr>coords = (0, 80, 416, 120), class_id = 0, score = 9 / 10\<rparr>] =
     [\<lparr>name = ''person'', prob = 9 / 10, bbox = (0, 123, 640, 184)\<rparr>]"
    by (simp only: f y)
  from h1 c1 h2 k h3 c3 c4 show ?thesis by blast
qed

theorem threshold_boundary_witness:
  "squeezed_index (detections example_ssd_outputs) 1 =
     Inr ((1 / 10, 6 / 5, 1 / 2, 3 / 2), 0, 1 / 2) \<and>
   1 / 2 = threshold example_detector \<and>
   id2label example_detector (py_trunc 0) = Some ''person'' \<and>
   target_id example_detector = - 1 \<and>
   ssd_entry example_detector example_ssd_outputs 1 =
     Inr (Some \<lparr>name = ''person'', prob = threshold example_detector,
                 bbox = ssd_bbox example_detector (1 / 10, 6 / 5, 1 / 2, 3 / 2)\<rparr>) \<and>
   1 < nat (py_trunc (valid_count example_ssd_outputs)) \<and>
   get_frames_ssd example_detector example_ssd_outputs =
     Inr [\<lparr>name = ''cat'', prob = 9 / 10, bbox = (64, 64, 320, 320)\<rparr>,
          \<lparr>name = ''person'', prob = 1 / 2, bbox = (768, 64, 640, 320)\<rparr>] \<and>
   \<lparr>name = ''person'', prob = threshold example_detector,
      bbox = ssd_bbox example_detector (1 / 10, 6 / 5, 1 / 2, 3 / 2)\<rparr>
     \<in> set [\<lparr>name = ''cat'', prob = 9 / 10, bbox = (64, 64, 320, 320)\<rparr>,
            \<lparr>name = ''person'', prob = 1 / 2, bbox = (768, 64, 640, 320)\<rparr>] \<and>
   score (candidate example_detector example_row) = threshold example_detector \<and>
   \<not> mask example_detector (candidate example_detector example_row) \<and>
   pre_nms example_detector [example_row, example_row_high] =
     Inr [\<lparr>coords = (0, 80, 416, 120), class_id = 0, score = 9 / 10\<rparr>] \<and>
   id2label example_detector (class_id (candidate example_detector example_row)) = Some ''person'' \<and>
   (\<exists>f. yolo_frame example_detector (candidate example_detector example_row) = Some f \<and>
        prob f = threshold example_detector)"
proof -
  have h1: "squeezed_index (detections example_ssd_outputs) 1 =
      Inr ((1 / 10, 6 / 5, 1 / 2, 3 / 2), 0, 1 / 2) \<and>
    1 / 2 = threshold example_detector \<and>
    id2label example_detector (py_trunc 0) = Some ''person'' \<and>
    (target_id example_detector = - 1 \<or> target_id example_detector = py_trunc 0)"
    by (rule conjI [OF example_slot_person]) (simp add: example_detector_def py_trunc_def)
  have t: "target_id example_detector = - 1" by (simp add: example_detector_def)
  have h2: "1 < nat (py_trunc (valid_count example_ssd_outputs)) \<and>
    get_frames_ssd example_detector example_ssd_outputs =
      Inr [\<lparr>name = ''cat'', prob = 9 / 10, bbox = (64, 64, 320, 320)\<rparr>,
           \<lparr>name = ''person'', prob = 1 / 2, bbox = (768, 64, 640, 320)\<rparr>]"
    by (rule conjI [OF _ ssd_example_frames]) (simp add: example_ssd_outputs_def py_trunc_def)
  have h3: "score (candidate example_detector example_row) = threshold example_detector"
    by (simp add: candidate_def example_detector_def example_row_def Let_def)
  have h4: "pre_nms example_detector [example_row, example_row_high] =
     Inr [\<lparr>coords = (0, 80, 416, 120), class_id = 0, score = 9 / 10\<rparr>]"
    by (rule example_pre_nms)
  have h5: "id2label example_detector (class_id (candidate example_detector example_row)) = Some ''person''"
    by (simp add: candidate_def example_detector_def example_row_def Let_def)
  note c = threshold_boundary [of example_ssd_outputs 1 "(1 / 10, 6 / 5, 1 / 2, 3 / 2)" 0 "1 / 2"
      example_detector "''person''"
      "[\<lparr>name = ''cat'', prob = 9 / 10, bbox = (64, 64, 320, 320)\<rparr>,
        \<lparr>name = ''person'', prob = 1 / 2, bbox = (768, 64, 640, 320)\<rparr>]"
      "candidate example_detector example_row" "[example_row, example_row_high]"
      "[\<lparr>coords = (0, 80, 416, 120), class_id = 0, score = 9 / 10\<rparr>]" "''person''"]
  from c h1 h2 h3 h4 h5 t show ?thesis by blast
qed








theorem anchor_decode_cell_witness:
  "shape1 example_pred = shape2 example_pred \<and> 0 < shape1 example_pred \<and>
   (0::nat) < length [[(12, 16), (19, 36), (40, 28)], [(36, 75), (76, 55), (72, 146 :: real)]] \<and>
   (0::nat) < length [6 / 5, 11 / 10 :: real] \<and>
   1 < shape1 example_pred \<and> 0 < shape2 example_pred \<and> (2::nat) < 3 \<and>
   strides example_detector example_pred = (208, 208) \<and>
   (\<exists>rows. decode_scale example_detector
        [[(12, 16), (19, 36), (40, 28)], [(36, 75), (76, 55), (72, 146)]] [6 / 5, 11 / 10] 0
        example_pred = Inr rows \<and>
      length rows = 12 \<and>
      rows ! 8 = \<lparr>row_x = (3 / 10 * (6 / 5) - 1 / 10 + 0) * 208,
                   row_y = (4 / 10 * (6 / 5) - 1 / 10 + 1) * 208,
                   row_w = 5 / 10 * 40, row_h = 6 / 10 * 28,
                   row_conf = 7 / 10, row_prob = [8 / 10]\<rparr>)"
  using anchor_decode_cell [of example_pred 0
      "[[(12, 16), (19, 36), (40, 28)], [(36, 75), (76, 55), (72, 146)]]" "[6 / 5, 11 / 10]"
      1 0 2 example_detector]
  by (simp add: example_pred_def example_detector_def)

lemma mask_code [code]:
  "mask d b =
     (case coords b of (b0, b1, b2, b3) \<Rightarrow> 0 < (b2 - b0) * (b3 - b1) \<and> threshold d < score b)"
  by (simp add: mask_def Let_def split: prod.splits)


end
